theory Spec2Isabelle
  imports Main
begin

section \<open>kvrocks2redis: process bootstrap (tools/kvrocks2redis/main.cc)\<close>

text \<open>
  The program is modelled as a function from its environment (what the C library, the
  configuration loader and the storage engine answer) to the trace of externally visible
  actions it performs, in program order, together with the way it ends. A call of
  \<open>exit(n)\<close> ends the trace with outcome \<open>Exit n\<close>; returning \<open>n\<close> from \<open>main\<close> is
  outcome \<open>Return n\<close>.
\<close>

subsection \<open>Actions and outcomes\<close>

datatype signal = SIGPIPE | SIGINT | SIGTERM

datatype disposition = SIG_DFL | SIG_IGN | Handler

text \<open>The kvrocks \<open>Config\<close> fields that \<open>main\<close> fills in before it builds the storage.\<close>

record kvrocks_config =
  kv_requirepass :: string
  kv_db_name :: string
  kv_db_dir :: string
  kv_max_open_files :: int

text \<open>
  One constructor per library call that \<open>main.cc\<close> makes. \<open>StorageOpen\<close> (the read-write
  open of the engine) and the three \<open>PidFile...\<close> actions of \<open>createPidFile\<close> belong to
  the alphabet although \<open>main\<close> never performs them. \<open>MainReturn\<close> is the return from
  \<open>main\<close>, at which its local objects (\<open>sync\<close>, \<open>opts\<close> and the others) are destroyed.
\<close>

datatype event =
    InitGoogleLogging string
  | SetUsageMessage string
  | EvthreadUsePthreads
  | Signal signal disposition
  | Stdout string
  | LogError string
  | LogInfo string
  | ConfigLoad string
  | SetMinLogLevel int
  | SetMaxLogSize int
  | SetLogBufSecs int
  | SetLogDir string
  | Fork
  | Umask nat
  | Setsid
  | CloseFd nat
  | StorageConstruct kvrocks_config
  | OpenForReadOnly
  | StorageOpen
  | RedisWriterConstruct
  | ParserConstruct
  | SyncConstruct
  | AssignHupHandler string
  | SyncStart
  | SyncIsStopped
  | SyncStop
  | RemovePidFile string
  | PidFileOpenExcl string
  | PidFileWrite string
  | PidFileClose
  | MainReturn

datatype 'a outcome = Exit int | Return 'a

type_synonym 'a proc = "event list \<times> 'a outcome"

definition emit :: "event list \<Rightarrow> unit proc" where
  "emit evs = (evs, Return ())"

text \<open>Sequencing: once a step has called \<open>exit\<close>, nothing after it runs.\<close>

fun andThen :: "'a proc \<Rightarrow> ('a \<Rightarrow> 'b proc) \<Rightarrow> 'b proc" where
  "andThen (tr, Exit n) k = (tr, Exit n)"
| "andThen (tr, Return x) k = (case k x of (tr', r) \<Rightarrow> (tr @ tr', r))"

definition trace :: "'a proc \<Rightarrow> event list" where
  "trace p = fst p"

text \<open>The exit status of the process: the argument of \<open>exit\<close>, or what \<open>main\<close> returns.\<close>

fun exit_code :: "int proc \<Rightarrow> int" where
  "exit_code (tr, Exit n) = n"
| "exit_code (tr, Return n) = n"

subsection \<open>Options and configuration\<close>

definition kDefaultConfPath :: string where
  "kDefaultConfPath = ''../kvrocks2redis.conf''"

definition kDefaultPidPath :: string where
  "kDefaultPidPath = ''/var/run/kvrocks2redis.pid''"

record Options =
  conf_file :: string
  pid_file :: string
  show_usage :: bool

definition default_Options :: Options where
  "default_Options =
     \<lparr>conf_file = kDefaultConfPath, pid_file = kDefaultPidPath, show_usage = False\<rparr>"

text \<open>
  \<open>Kvrocks2redis::Config\<close> is declared outside \<open>main.cc\<close>; these are the fields that
  \<open>main\<close> reads.
\<close>

record k2r_config =
  loglevel :: int
  dir :: string
  daemonize_flag :: bool
  requirepass :: string
  db_name :: string
  db_dir :: string
  max_open_files :: int

text \<open>
  The environment of one run of one process. \<open>getopt_returns\<close> lists what the successive
  calls of \<open>getopt(argc, argv, "c:p:hv")\<close> return before \<open>-1\<close>, each with the value of
  \<open>optarg\<close>; for this option string \<open>getopt\<close> answers \<open>?\<close> for an option character that
  is not one of \<open>c p h v\<close> and for a missing argument. \<open>config_load\<close> is
  \<open>Config::Load\<close> (\<open>Inl msg\<close> is a status that is not OK), \<open>open_for_read_only\<close> is
  \<open>Storage::OpenForReadOnly\<close> (\<open>Some msg\<close> is a status that is not OK). \<open>fork_ret\<close> and
  \<open>setsid_ret\<close> are what \<open>fork()\<close> and \<open>setsid()\<close> return in this process, and
  \<open>fork_err\<close>, \<open>setsid_err\<close> the text of \<open>strerror(errno)\<close> after them.
\<close>

record env =
  argv0 :: string
  getopt_returns :: "(char \<times> string) list"
  version :: string
  git_commit :: string
  config_load :: "string \<Rightarrow> string + k2r_config"
  fork_ret :: int
  fork_err :: string
  setsid_ret :: int
  setsid_err :: string
  open_for_read_only :: "kvrocks_config \<Rightarrow> string option"

subsection \<open>The functions of main.cc\<close>

definition nl :: string where
  "nl = [CHR 0x0A]"

definition tab :: string where
  "tab = [CHR 0x09]"

definition usage :: "string \<Rightarrow> 'a proc" where
  "usage program =
     ([Stdout (program @ '' sync kvrocks to redis'' @ nl
          @ tab @ ''-c config file, default is '' @ kDefaultConfPath @ nl
          @ tab @ ''-p pid file, default is '' @ kDefaultPidPath @ nl
          @ tab @ ''-h help'' @ nl)],
      Exit 0)"

text \<open>
  The \<open>while\<close> loop over \<open>getopt\<close>: one equation per return value, the \<open>switch\<close> in the
  order of the source; the \<open>default\<close> label takes every other character.
\<close>

fun getopt_loop :: "string \<Rightarrow> (char \<times> string) list \<Rightarrow> Options \<Rightarrow> Options proc" where
  "getopt_loop program [] opts = ([], Return opts)"
| "getopt_loop program ((ch, optarg) # rest) opts =
     (if ch = CHR ''c'' then getopt_loop program rest (opts\<lparr>conf_file := optarg\<rparr>)
      else if ch = CHR ''p'' then getopt_loop program rest (opts\<lparr>pid_file := optarg\<rparr>)
      else if ch = CHR ''h'' then getopt_loop program rest (opts\<lparr>show_usage := True\<rparr>)
      else if ch = CHR ''v'' then ([], Exit 0)
      else usage program)"

definition parseCommandLineOptions :: "string \<Rightarrow> (char \<times> string) list \<Rightarrow> Options proc" where
  "parseCommandLineOptions program rets = getopt_loop program rets default_Options"

definition initGoogleLog :: "k2r_config \<Rightarrow> unit proc" where
  "initGoogleLog config =
     emit [SetMinLogLevel (loglevel config), SetMaxLogSize 100, SetLogBufSecs 0,
           SetLogDir (dir config)]"

text \<open>
  \<open>createPidFile\<close>: \<open>open_fd\<close> is what \<open>open(path, O_RDWR | O_CREAT | O_EXCL)\<close> returns,
  \<open>err\<close> the text of \<open>strerror(errno)\<close>, \<open>pid_str\<close> the decimal process id. The result is
  the \<open>Status\<close>: \<open>Some msg\<close> for \<open>NotOK\<close>, \<open>None\<close> for \<open>OK\<close>.
\<close>

definition createPidFile :: "int \<Rightarrow> string \<Rightarrow> string \<Rightarrow> string \<Rightarrow> (string option) proc" where
  "createPidFile open_fd err pid_str path =
     (if open_fd < 0 then ([PidFileOpenExcl path], Return (Some err))
      else ([PidFileOpenExcl path, PidFileWrite pid_str, PidFileClose], Return None))"

definition removePidFile :: "string \<Rightarrow> unit proc" where
  "removePidFile path = emit [RemovePidFile path]"

definition daemonize :: "env \<Rightarrow> unit proc" where
  "daemonize e =
     andThen (emit [Fork]) (\<lambda>_.
     andThen (if fork_ret e < 0
              then ([LogError (''Failed to fork the process, err: '' @ fork_err e)], Exit 1)
              else emit []) (\<lambda>_.
     andThen (if fork_ret e > 0 then ([], Exit 0) else emit []) (\<lambda>_.
     andThen (emit [Umask 0, Setsid]) (\<lambda>_.
     andThen (if setsid_ret e < 0
              then ([LogError (''Failed to setsid, err: %s'' @ setsid_err e)], Exit 1)
              else emit []) (\<lambda>_.
     emit [CloseFd 0, CloseFd 1, CloseFd 2])))))"

definition make_kvrocks_config :: "k2r_config \<Rightarrow> kvrocks_config" where
  "make_kvrocks_config config =
     \<lparr>kv_requirepass = requirepass config, kv_db_name = db_name config,
      kv_db_dir = db_dir config, kv_max_open_files = max_open_files config\<rparr>"

text \<open>
  \<open>main\<close>. \<open>AssignHupHandler p\<close> is the assignment of the closure to the global
  \<open>hup_handler\<close>; the closure holds references to \<open>sync\<close> and to \<open>opts\<close>, of which it
  reads \<open>pid_file\<close>, here \<open>p\<close>. \<open>SyncStart\<close> is the call of \<open>sync.Start()\<close>, which
  blocks until the orchestrator has stopped.
\<close>

definition main :: "env \<Rightarrow> int proc" where
  "main e =
     andThen (emit [InitGoogleLogging ''kvrocks2redis'', SetUsageMessage ''kvrocks2redis'',
                    EvthreadUsePthreads,
                    Signal SIGPIPE SIG_IGN, Signal SIGINT Handler, Signal SIGTERM Handler,
                    Stdout (''Version: '' @ version e @ '' @'' @ git_commit e @ nl)]) (\<lambda>_.
     andThen (parseCommandLineOptions (argv0 e) (getopt_returns e)) (\<lambda>opts.
     andThen (if show_usage opts then usage (argv0 e) else emit []) (\<lambda>_.
     andThen (emit [ConfigLoad (conf_file opts)]) (\<lambda>_.
     case config_load e (conf_file opts) of
       Inl msg \<Rightarrow> ([Stdout (''Failed to load config, err: '' @ msg @ nl)], Exit 1)
     | Inr config \<Rightarrow>
     andThen (initGoogleLog config) (\<lambda>_.
     andThen (if daemonize_flag config then daemonize e else emit []) (\<lambda>_.
     andThen (emit [StorageConstruct (make_kvrocks_config config), OpenForReadOnly]) (\<lambda>_.
     case open_for_read_only e (make_kvrocks_config config) of
       Some msg \<Rightarrow> ([LogError (''Failed to open: '' @ msg)], Exit 1)
     | None \<Rightarrow>
     andThen (emit [RedisWriterConstruct, ParserConstruct, SyncConstruct,
                    AssignHupHandler (pid_file opts), SyncStart]) (\<lambda>_.
     ([], Return 0)))))))))"

subsection \<open>Signals\<close>

text \<open>
  The process state that a signal handler depends on: the disposition of each signal
  (set by \<open>signal()\<close>) and the global \<open>std::function\<close> \<open>hup_handler\<close>, which is empty
  (\<open>None\<close>) until \<open>main\<close> assigns the closure; \<open>Some p\<close> is the closure, which refers to
  \<open>sync\<close> and to \<open>opts\<close>, whose \<open>pid_file\<close> is \<open>p\<close>. The closure captures both by
  reference and nothing empties \<open>hup_handler\<close> or resets the handlers, so
  \<open>main_returned\<close> records whether those two objects are gone.
\<close>

record globals =
  sigdisp :: "signal \<Rightarrow> disposition"
  hup_handler :: "string option"
  main_returned :: bool

definition initial_globals :: globals where
  "initial_globals =
     \<lparr>sigdisp = (\<lambda>_. SIG_DFL), hup_handler = None, main_returned = False\<rparr>"

fun apply_event :: "globals \<Rightarrow> event \<Rightarrow> globals" where
  "apply_event g (Signal s d) = g\<lparr>sigdisp := (sigdisp g)(s := d)\<rparr>"
| "apply_event g (AssignHupHandler p) = g\<lparr>hup_handler := Some p\<rparr>"
| "apply_event g MainReturn = g\<lparr>main_returned := True\<rparr>"
| "apply_event g _ = g"

text \<open>The state of the process after it has performed the actions \<open>evs\<close>.\<close>

definition globals_after :: "event list \<Rightarrow> globals" where
  "globals_after evs = foldl apply_event initial_globals evs"

text \<open>
  The body of the closure assigned in \<open>main\<close>, run while \<open>sync\<close> and \<open>opts\<close> exist.
  \<open>stopped\<close> is what \<open>sync.IsStopped()\<close> answers; \<open>Sync\<close> is defined outside
  \<open>main.cc\<close>.
\<close>

definition hup_closure :: "string \<Rightarrow> bool \<Rightarrow> event list" where
  "hup_closure p stopped =
     SyncIsStopped #
     (if \<not> stopped then [LogInfo ''Bye Bye'', SyncStop] @ trace (removePidFile p) else [])"

definition signal_handler :: "globals \<Rightarrow> bool \<Rightarrow> event list" where
  "signal_handler g stopped =
     (case hup_handler g of None \<Rightarrow> [] | Some p \<Rightarrow> hup_closure p stopped)"

text \<open>
  Delivery of a signal: the default action of the three signals ends the process, an
  ignored signal has no effect, a caught one runs \<open>signal_handler\<close>. Once \<open>main\<close> has
  returned, a call of the assigned closure reads destroyed objects: the behaviour is
  undefined, and the model says nothing about what the handler then does.
\<close>

datatype delivery = Terminated | Ignored | Handled "event list" | Undefined

definition deliver :: "signal \<Rightarrow> globals \<Rightarrow> bool \<Rightarrow> delivery" where
  "deliver s g stopped =
     (case sigdisp g s of
        SIG_DFL \<Rightarrow> Terminated
      | SIG_IGN \<Rightarrow> Ignored
      | Handler \<Rightarrow>
          if hup_handler g \<noteq> None \<and> main_returned g then Undefined
          else Handled (signal_handler g stopped))"

text \<open>
  The actions of the process up to the destruction of the local objects of \<open>main\<close>: the
  run of \<open>main\<close>, followed by its return unless it ended in \<open>exit\<close>, which does not
  unwind the stack.
\<close>

definition lifetime :: "env \<Rightarrow> event list" where
  "lifetime e =
     (case main e of (tr, Exit n) \<Rightarrow> tr | (tr, Return n) \<Rightarrow> tr @ [MainReturn])"

text \<open>The pipeline components that \<open>main\<close> builds and starts.\<close>

fun pipeline_component :: "event \<Rightarrow> bool" where
  "pipeline_component RedisWriterConstruct = True"
| "pipeline_component ParserConstruct = True"
| "pipeline_component SyncConstruct = True"
| "pipeline_component SyncStart = True"
| "pipeline_component _ = False"

text \<open>The first seven actions of every run.\<close>

definition prologue :: "env \<Rightarrow> event list" where
  "prologue e =
     [InitGoogleLogging ''kvrocks2redis'', SetUsageMessage ''kvrocks2redis'',
      EvthreadUsePthreads,
      Signal SIGPIPE SIG_IGN, Signal SIGINT Handler, Signal SIGTERM Handler,
      Stdout (''Version: '' @ version e @ '' @'' @ git_commit e @ nl)]"

subsection \<open>Sample environments\<close>

definition sample_config :: k2r_config where
  "sample_config =
     \<lparr>loglevel = 1, dir = ''/var/log/k2r'', daemonize_flag = False, requirepass = ''secret'',
      db_name = ''db'', db_dir = ''/data/kvrocks'', max_open_files = 4096\<rparr>"

text \<open>\<open>-c /etc/k2r.conf -p /tmp/k2r.pid\<close>, everything succeeds, no daemon.\<close>

definition env_ok :: env where
  "env_ok =
     \<lparr>argv0 = ''kvrocks2redis'',
      getopt_returns = [(CHR ''c'', ''/etc/k2r.conf''), (CHR ''p'', ''/tmp/k2r.pid'')],
      version = ''1.0'', git_commit = ''abc'',
      config_load = (\<lambda>_. Inr sample_config),
      fork_ret = 0, fork_err = ''EAGAIN'', setsid_ret = 7, setsid_err = ''EPERM'',
      open_for_read_only = (\<lambda>_. None)\<rparr>"

text \<open>The same in the child of a successful \<open>fork\<close>, with \<open>daemonize yes\<close>.\<close>

definition env_daemon :: env where
  "env_daemon = env_ok\<lparr>config_load := (\<lambda>_. Inr (sample_config\<lparr>daemonize_flag := True\<rparr>))\<rparr>"

text \<open>An option that is not in the option string: \<open>getopt\<close> answers \<open>?\<close>.\<close>

definition env_bad_option :: env where
  "env_bad_option = env_ok\<lparr>getopt_returns := [(CHR ''?'', [])]\<rparr>"

definition env_load_fails :: env where
  "env_load_fails = env_ok\<lparr>config_load := (\<lambda>_. Inl ''no such file'')\<rparr>"

definition env_open_fails :: env where
  "env_open_fails = env_ok\<lparr>open_for_read_only := (\<lambda>_. Some ''IO error'')\<rparr>"

section \<open>The replication pipeline\<close>

text \<open>
  The orchestrator, the change reader and the checkpoint store are not part of
  \<open>main.cc\<close>; \<open>main\<close> only constructs them and calls \<open>Start\<close>. Their model follows
  the specification, at the granularity of whole batches: a batch is identified by its
  sequence number, the change log is the list of the sequence numbers of its batches, and
  a batch counts as applied once all its operations are acknowledged by the target.
\<close>

text \<open>
  Modelled from the spec: the state that survives a crash (sections 3 and 6), which
  \<open>sync.cc\<close> and the checkpoint store keep. \<open>applied\<close> lists the batches that the target
  has acknowledged in full, in the order of delivery (a batch delivered again appears
  again); \<open>checkpoint\<close> is the persisted \<open>lastAppliedSequence\<close>, \<open>None\<close> as long as no
  checkpoint has been written.
\<close>

record pipeline =
  applied :: "nat list"
  checkpoint :: "nat option"

text \<open>
  Modelled from the spec: the resume point that the checkpoint store gives the
  orchestrator (section 2): the start of the log without a checkpoint, the sequence
  number after \<open>s\<close> with the checkpoint at \<open>s\<close> (section 8, "sequence > S only").
\<close>

fun resume_point :: "nat option \<Rightarrow> nat" where
  "resume_point None = 0"
| "resume_point (Some s) = Suc s"

text \<open>
  Modelled from the spec: the change reader's \<open>Open(fromSequence)\<close> (section 4.1), a
  forward cursor over the log that starts at the first batch whose sequence number is not
  below \<open>from\<close> and yields the batches from there in commit order.
\<close>

definition cursor :: "nat list \<Rightarrow> nat \<Rightarrow> nat list" where
  "cursor log from = dropWhile (\<lambda>b. b < from) log"

text \<open>
  Modelled from the spec: the target writer has acknowledged every operation of batch
  \<open>b\<close> (section 4.3).
\<close>

definition send_batch :: "nat \<Rightarrow> pipeline \<Rightarrow> pipeline" where
  "send_batch b w = w\<lparr>applied := applied w @ [b]\<rparr>"

text \<open>
  Modelled from the spec: the checkpoint store's durable write (sections 3 and 7).
  \<open>ok b\<close> tells whether the write for batch \<open>b\<close> succeeds; a failed write is logged
  and leaves the persisted checkpoint as it was.
\<close>

definition persist :: "(nat \<Rightarrow> bool) \<Rightarrow> nat \<Rightarrow> pipeline \<Rightarrow> pipeline" where
  "persist ok b w = (if ok b then w\<lparr>checkpoint := Some b\<rparr> else w)"

text \<open>
  Modelled from the spec: the pump loop of the orchestrator (section 4.4): pull the next
  batch, send its operations, on success persist the checkpoint, loop. The number is the
  count of steps (a batch acknowledged, a checkpoint write attempted) that complete before
  the process crashes or stops; at the end of the log the reader blocks.
\<close>

fun pump :: "(nat \<Rightarrow> bool) \<Rightarrow> nat \<Rightarrow> nat list \<Rightarrow> pipeline \<Rightarrow> pipeline" where
  "pump ok 0 bs w = w"
| "pump ok (Suc n) [] w = w"
| "pump ok (Suc 0) (b # bs) w = send_batch b w"
| "pump ok (Suc (Suc n)) (b # bs) w = pump ok n bs (persist ok b (send_batch b w))"

text \<open>
  Modelled from the spec: one life of the process (section 2, control flow): read the
  checkpoint, open the cursor from its resume point, pump until the crash after \<open>fst r\<close>
  steps, with checkpoint writes succeeding as \<open>snd r\<close> says.
\<close>

definition run :: "nat list \<Rightarrow> pipeline \<Rightarrow> nat \<times> (nat \<Rightarrow> bool) \<Rightarrow> pipeline" where
  "run log w r = pump (snd r) (fst r) (cursor log (resume_point (checkpoint w))) w"















section \<open>Shape of the runs of main\<close>

lemma getopt_loop_shape:
  "getopt_loop prog rets opts = (tr, r) \<Longrightarrow>
     (tr = [] \<and> (r = Exit 0 \<or> (\<exists>o'. r = Return o'))) \<or> ((tr, r) = usage prog)"
  by (induction prog rets opts rule: getopt_loop.induct) (auto simp: usage_def split: if_splits)

lemma parse_shape:
  "parseCommandLineOptions prog rets = (tr, r) \<Longrightarrow>
     (tr = [] \<and> (r = Exit 0 \<or> (\<exists>o'. r = Return o'))) \<or> ((tr, r) = usage prog)"
  unfolding parseCommandLineOptions_def by (rule getopt_loop_shape)

lemma daemonize_cases:
  "daemonize e =
     (if fork_ret e < 0
      then ([Fork, LogError (''Failed to fork the process, err: '' @ fork_err e)], Exit 1)
      else if fork_ret e > 0 then ([Fork], Exit 0)
      else if setsid_ret e < 0
      then ([Fork, Umask 0, Setsid, LogError (''Failed to setsid, err: %s'' @ setsid_err e)],
            Exit 1)
      else ([Fork, Umask 0, Setsid, CloseFd 0, CloseFd 1, CloseFd 2], Return ()))"
  by (simp add: daemonize_def emit_def)

lemma main_cases:
  "main e =
     (case parseCommandLineOptions (argv0 e) (getopt_returns e) of
        (tr, Exit n) \<Rightarrow> (prologue e @ tr, Exit n)
      | (tr, Return opts) \<Rightarrow>
          if show_usage opts then (prologue e @ trace (usage (argv0 e) :: unit proc), Exit 0)
          else (case config_load e (conf_file opts) of
             Inl msg \<Rightarrow>
               (prologue e @ [ConfigLoad (conf_file opts),
                              Stdout (''Failed to load config, err: '' @ msg @ nl)], Exit 1)
           | Inr config \<Rightarrow>
               (case (if daemonize_flag config then daemonize e else emit []) of
                  (dtr, Exit n) \<Rightarrow>
                    (prologue e @ ConfigLoad (conf_file opts) # trace (initGoogleLog config) @ dtr,
                     Exit n)
                | (dtr, Return _) \<Rightarrow>
                    (case open_for_read_only e (make_kvrocks_config config) of
                       Some msg \<Rightarrow>
                         (prologue e @ ConfigLoad (conf_file opts) # trace (initGoogleLog config)
                            @ dtr @ [StorageConstruct (make_kvrocks_config config), OpenForReadOnly,
                                     LogError (''Failed to open: '' @ msg)], Exit 1)
                     | None \<Rightarrow>
                         (prologue e @ ConfigLoad (conf_file opts) # trace (initGoogleLog config)
                            @ dtr @ [StorageConstruct (make_kvrocks_config config), OpenForReadOnly,
                                     RedisWriterConstruct, ParserConstruct, SyncConstruct,
                                     AssignHupHandler (pid_file opts), SyncStart], Return 0)))))"
  apply (cases "parseCommandLineOptions (argv0 e) (getopt_returns e)")
  subgoal for tr r
    apply (frule parse_shape)
    apply (cases r)
     apply (auto simp: main_def emit_def trace_def usage_def initGoogleLog_def prologue_def
        split: sum.splits option.splits prod.splits outcome.splits)
    done
  done

lemmas trace_simps = trace_def usage_def initGoogleLog_def emit_def prologue_def daemonize_cases

lemma parse_cases:
  obtains (exit0) "parseCommandLineOptions (argv0 e) (getopt_returns e) = ([], Exit 0)"
  | (usage) "parseCommandLineOptions (argv0 e) (getopt_returns e) = usage (argv0 e)"
  | (ret) opts where "parseCommandLineOptions (argv0 e) (getopt_returns e) = ([], Return opts)"
  using parse_shape[of "argv0 e" "getopt_returns e"]
  by (cases "parseCommandLineOptions (argv0 e) (getopt_returns e)") auto

lemma getopt_loop_unrecognized:
  "(ch, arg) \<in> set rets \<Longrightarrow> ch \<notin> {CHR ''c'', CHR ''p'', CHR ''h'', CHR ''v''} \<Longrightarrow>
     \<exists>tr. getopt_loop prog rets opts = (tr, Exit 0)"
  by (induction prog rets opts rule: getopt_loop.induct) (auto simp: usage_def)

lemmas env_simps = env_ok_def env_daemon_def env_bad_option_def env_load_fails_def
  env_open_fails_def sample_config_def

lemma main_env_ok:
  "main env_ok =
     (prologue env_ok @
      [ConfigLoad ''/etc/k2r.conf'', SetMinLogLevel 1, SetMaxLogSize 100, SetLogBufSecs 0,
       SetLogDir ''/var/log/k2r'', StorageConstruct (make_kvrocks_config sample_config),
       OpenForReadOnly, RedisWriterConstruct, ParserConstruct, SyncConstruct,
       AssignHupHandler ''/tmp/k2r.pid'', SyncStart], Return 0)"
  by (simp add: main_def parseCommandLineOptions_def default_Options_def trace_simps env_simps)

lemma main_env_daemon:
  "main env_daemon =
     (prologue env_daemon @
      [ConfigLoad ''/etc/k2r.conf'', SetMinLogLevel 1, SetMaxLogSize 100, SetLogBufSecs 0,
       SetLogDir ''/var/log/k2r'', Fork, Umask 0, Setsid, CloseFd 0, CloseFd 1, CloseFd 2,
       StorageConstruct (make_kvrocks_config (sample_config\<lparr>daemonize_flag := True\<rparr>)),
       OpenForReadOnly, RedisWriterConstruct, ParserConstruct, SyncConstruct,
       AssignHupHandler ''/tmp/k2r.pid'', SyncStart], Return 0)"
  by (simp add: main_def parseCommandLineOptions_def default_Options_def trace_simps env_simps)

lemma main_env_bad_option:
  "main env_bad_option = (prologue env_bad_option @ trace (usage ''kvrocks2redis'' :: unit proc), Exit 0)"
  by (simp add: main_def parseCommandLineOptions_def default_Options_def trace_simps env_simps)

lemma main_env_load_fails:
  "main env_load_fails =
     (prologue env_load_fails @
      [ConfigLoad ''/etc/k2r.conf'', Stdout (''Failed to load config, err: no such file'' @ nl)],
      Exit 1)"
  by (simp add: main_def parseCommandLineOptions_def default_Options_def trace_simps env_simps)

lemma main_env_open_fails:
  "main env_open_fails =
     (prologue env_open_fails @
      [ConfigLoad ''/etc/k2r.conf'', SetMinLogLevel 1, SetMaxLogSize 100, SetLogBufSecs 0,
       SetLogDir ''/var/log/k2r'', StorageConstruct (make_kvrocks_config sample_config),
       OpenForReadOnly, LogError ''Failed to open: IO error''], Exit 1)"
  by (simp add: main_def parseCommandLineOptions_def default_Options_def trace_simps env_simps)

subsection \<open>The process state after a prefix of a run\<close>

lemma hup_handler_apply_event:
  "\<forall>p. x \<noteq> AssignHupHandler p \<Longrightarrow> hup_handler (apply_event g x) = hup_handler g"
  by (cases x) simp_all

lemma sigdisp_apply_event:
  "\<forall>d. x \<noteq> Signal s d \<Longrightarrow> sigdisp (apply_event g x) s = sigdisp g s"
  by (cases x) simp_all

lemma hup_handler_foldl_none:
  "\<forall>p. AssignHupHandler p \<notin> set evs \<Longrightarrow>
     hup_handler (foldl apply_event g evs) = hup_handler g"
proof (induction evs arbitrary: g)
  case Nil
  show ?case by simp
next
  case (Cons x evs)
  from Cons.prems have x: "\<forall>p. x \<noteq> AssignHupHandler p"
    and rest: "\<forall>p. AssignHupHandler p \<notin> set evs" by auto
  have "hup_handler (foldl apply_event (apply_event g x) evs) = hup_handler (apply_event g x)"
    by (rule Cons.IH[OF rest])
  also have "\<dots> = hup_handler g" by (rule hup_handler_apply_event[OF x])
  finally show ?case by simp
qed

lemma hup_handler_foldl_some:
  assumes "AssignHupHandler p \<in> set evs"
    and "\<forall>q. AssignHupHandler q \<in> set evs \<longrightarrow> q = p"
  shows "hup_handler (foldl apply_event g evs) = Some p"
  using assms
proof (induction evs arbitrary: g)
  case Nil
  then show ?case by simp
next
  case (Cons x evs)
  have uniq: "\<forall>q. AssignHupHandler q \<in> set evs \<longrightarrow> q = p"
    using Cons.prems(2) by simp
  show ?case
  proof (cases "AssignHupHandler p \<in> set evs")
    case True
    have "hup_handler (foldl apply_event (apply_event g x) evs) = Some p"
      by (rule Cons.IH[OF True uniq])
    then show ?thesis by simp
  next
    case False
    with Cons.prems(1) have x: "x = AssignHupHandler p" by simp
    from False uniq have "\<forall>q. AssignHupHandler q \<notin> set evs" by blast
    from hup_handler_foldl_none[OF this, of "apply_event g x"] x show ?thesis by simp
  qed
qed

lemma sigdisp_foldl:
  assumes "\<forall>d'. Signal s d' \<in> set evs \<longrightarrow> d' = d"
    and "sigdisp g s = d \<or> Signal s d \<in> set evs"
  shows "sigdisp (foldl apply_event g evs) s = d"
  using assms
proof (induction evs arbitrary: g)
  case Nil
  then show ?case by simp
next
  case (Cons x evs)
  have uniq: "\<forall>d'. Signal s d' \<in> set evs \<longrightarrow> d' = d"
    using Cons.prems(1) by simp
  have "sigdisp (apply_event g x) s = d \<or> Signal s d \<in> set evs"
  proof (cases "\<exists>d'. x = Signal s d'")
    case True
    then obtain d' where x: "x = Signal s d'" by blast
    with Cons.prems(1) have "d' = d" by simp
    with x show ?thesis by simp
  next
    case False
    then have "sigdisp (apply_event g x) s = sigdisp g s"
      by (intro sigdisp_apply_event) blast
    with Cons.prems(2) False show ?thesis by auto
  qed
  from Cons.IH[OF uniq this] show ?case by simp
qed

lemma main_signal_events:
  "Signal s d \<in> set (trace (main e)) \<Longrightarrow> d = (if s = SIGPIPE then SIG_IGN else Handler)"
  apply (cases e rule: parse_cases)
    apply (auto simp: main_cases trace_simps split: sum.splits option.splits if_splits)
  done

lemma main_assign_events:
  "AssignHupHandler q \<in> set (trace (main e)) \<Longrightarrow>
     \<exists>opts. parseCommandLineOptions (argv0 e) (getopt_returns e) = ([], Return opts) \<and>
            q = pid_file opts"
  apply (cases e rule: parse_cases)
    apply (auto simp: main_cases trace_simps split: sum.splits option.splits if_splits)
  done

lemma main_prologue: "\<exists>rest. trace (main e) = prologue e @ rest"
  apply (cases e rule: parse_cases)
    apply (simp_all add: main_cases trace_def usage_def split: sum.splits option.splits prod.splits outcome.splits)
  done

lemma main_take4:
  "take 4 (trace (main e)) =
     [InitGoogleLogging ''kvrocks2redis'', SetUsageMessage ''kvrocks2redis'',
      EvthreadUsePthreads, Signal SIGPIPE SIG_IGN]"
proof -
  obtain rest where "trace (main e) = prologue e @ rest" using main_prologue by blast
  then show ?thesis by (simp add: prologue_def)
qed

lemma take_mem_before:
  assumes "b \<in> set (take k (ys @ a # zs))" and "b \<notin> set ys"
  shows "a \<in> set (take k (ys @ a # zs))"
proof -
  have "length ys < k"
  proof (rule ccontr)
    assume "\<not> length ys < k"
    then have "take k (ys @ a # zs) = take k ys" by simp
    with assms(1) have "b \<in> set (take k ys)" by simp
    then have "b \<in> set ys" by (rule in_set_takeD)
    with assms(2) show False by contradiction
  qed
  then show ?thesis by (simp add: take_Cons')
qed

lemma main_assign_shape:
  assumes "AssignHupHandler p \<in> set (trace (main e))"
  shows "\<exists>ys. trace (main e) = (prologue e @ ys) @ SyncConstruct # [AssignHupHandler p, SyncStart] \<and>
              (\<forall>q. AssignHupHandler q \<notin> set (prologue e @ ys))"
proof (cases e rule: parse_cases)
  case exit0
  with assms show ?thesis by (simp add: main_cases trace_simps)
next
  case usage
  with assms show ?thesis by (simp add: main_cases trace_simps)
next
  case (ret opts)
  with assms show ?thesis
    by (auto simp: main_cases trace_simps split: sum.splits option.splits if_splits)
qed

lemma main_signals_installed:
  assumes "AssignHupHandler p \<in> set (take k (trace (main e)))"
  shows "Signal SIGINT Handler \<in> set (take k (trace (main e))) \<and>
         Signal SIGTERM Handler \<in> set (take k (trace (main e))) \<and>
         SyncConstruct \<in> set (take k (trace (main e)))"
proof -
  from assms have "AssignHupHandler p \<in> set (trace (main e))" by (rule in_set_takeD)
  from main_assign_shape[OF this] obtain ys where
    tr: "trace (main e) = (prologue e @ ys) @ SyncConstruct # [AssignHupHandler p, SyncStart]"
    and no: "\<forall>q. AssignHupHandler q \<notin> set (prologue e @ ys)" by blast
  from no have no': "AssignHupHandler p \<notin> set (prologue e @ ys)" by blast
  have sc: "SyncConstruct \<in> set (take k (trace (main e)))"
    using take_mem_before[OF assms[unfolded tr] no'] unfolding tr .
  have "length (prologue e @ ys) < k"
  proof (rule ccontr)
    assume "\<not> length (prologue e @ ys) < k"
    then have "take k (trace (main e)) = take k (prologue e @ ys)" unfolding tr by simp
    with assms have "AssignHupHandler p \<in> set (prologue e @ ys)" by (auto dest: in_set_takeD)
    with no' show False by contradiction
  qed
  then have "take k (trace (main e)) = (prologue e @ ys) @ take (k - length (prologue e @ ys)) (SyncConstruct # [AssignHupHandler p, SyncStart])"
    unfolding tr by simp
  then have "set (prologue e) \<subseteq> set (take k (trace (main e)))" by auto
  with sc show ?thesis by (auto simp: prologue_def)
qed

lemma trace_main_env_ok:
  "trace (main env_ok) =
     [InitGoogleLogging ''kvrocks2redis'', SetUsageMessage ''kvrocks2redis'',
      EvthreadUsePthreads, Signal SIGPIPE SIG_IGN, Signal SIGINT Handler,
      Signal SIGTERM Handler, Stdout (''Version: 1.0 @abc'' @ nl),
      ConfigLoad ''/etc/k2r.conf'', SetMinLogLevel 1, SetMaxLogSize 100, SetLogBufSecs 0,
      SetLogDir ''/var/log/k2r'', StorageConstruct (make_kvrocks_config sample_config),
      OpenForReadOnly, RedisWriterConstruct, ParserConstruct, SyncConstruct,
      AssignHupHandler ''/tmp/k2r.pid'', SyncStart]"
  by (simp add: main_env_ok trace_def prologue_def) (simp add: env_ok_def)

subsection \<open>The process state up to the return from main\<close>

lemma main_returned_foldl:
  "MainReturn \<notin> set evs \<Longrightarrow>
     main_returned (foldl apply_event g evs) = main_returned g"
proof (induction evs arbitrary: g)
  case Nil
  show ?case by simp
next
  case (Cons x evs)
  from Cons.prems have x: "x \<noteq> MainReturn" and rest: "MainReturn \<notin> set evs" by auto
  have "main_returned (apply_event g x) = main_returned g" using x by (cases x) simp_all
  with Cons.IH[OF rest, of "apply_event g x"] show ?case by simp
qed

lemma lifetime_cases:
  "lifetime e = trace (main e) \<or> lifetime e = trace (main e) @ [MainReturn]"
  by (cases "main e") (auto simp: lifetime_def trace_def split: outcome.splits)

lemma lifetime_prefix:
  assumes "MainReturn \<notin> set (take k (lifetime e))"
  shows "take k (lifetime e) = take k (trace (main e))"
proof -
  from lifetime_cases[of e] show ?thesis
  proof
    assume "lifetime e = trace (main e)"
    then show ?thesis by simp
  next
    assume l: "lifetime e = trace (main e) @ [MainReturn]"
    have "k \<le> length (trace (main e))"
    proof (rule ccontr)
      assume "\<not> k \<le> length (trace (main e))"
      then have "take k (lifetime e) = trace (main e) @ [MainReturn]"
        unfolding l by simp
      with assms show False by simp
    qed
    then show ?thesis unfolding l by simp
  qed
qed

lemma main_no_return_event: "MainReturn \<notin> set (trace (main e))"
  apply (cases e rule: parse_cases)
    apply (auto simp: main_cases trace_simps split: sum.splits option.splits if_splits)
  done

lemma main_return_assigned:
  "snd (main e) = Return n \<Longrightarrow> \<exists>p. AssignHupHandler p \<in> set (trace (main e))"
  apply (cases e rule: parse_cases)
    apply (auto simp: main_cases trace_simps split: sum.splits option.splits if_splits)
  done

lemma signal_after_main_returns:
  assumes "s = SIGINT \<or> s = SIGTERM"
    and "MainReturn \<in> set (take k (lifetime e))"
  shows "deliver s (globals_after (take k (lifetime e))) stopped = Undefined"
proof -
  from assms(2) have inl: "MainReturn \<in> set (lifetime e)" by (rule in_set_takeD)
  with main_no_return_event[of e] lifetime_cases[of e]
  have l: "lifetime e = trace (main e) @ [MainReturn]" by auto
  then obtain n where ret: "snd (main e) = Return n"
    by (cases "main e") (auto simp: lifetime_def trace_def split: outcome.splits)
  have "length (trace (main e)) < k"
  proof (rule ccontr)
    assume "\<not> length (trace (main e)) < k"
    then have "take k (lifetime e) = take k (trace (main e))" unfolding l by simp
    with assms(2) have "MainReturn \<in> set (trace (main e))" by (auto dest: in_set_takeD)
    with main_no_return_event[of e] show False by contradiction
  qed
  then have full: "take k (lifetime e) = trace (main e) @ [MainReturn]" unfolding l by simp
  from main_return_assigned[OF ret] obtain p where
    asg: "AssignHupHandler p \<in> set (trace (main e))" by blast
  have uniqp: "\<forall>q. AssignHupHandler q \<in> set (trace (main e)) \<longrightarrow> q = p"
    using main_assign_events[of _ e] main_assign_events[OF asg] by auto
  have h: "hup_handler (foldl apply_event initial_globals (trace (main e))) = Some p"
    by (rule hup_handler_foldl_some[OF asg uniqp])
  have "AssignHupHandler p \<in> set (take (length (trace (main e))) (trace (main e)))"
    using asg by simp
  from main_signals_installed[OF this] assms(1)
  have mem: "Signal s Handler \<in> set (trace (main e))" by auto
  have uniq: "\<forall>d'. Signal s d' \<in> set (trace (main e)) \<longrightarrow> d' = Handler"
    using main_signal_events[of s _ e] assms(1) by auto
  have d: "sigdisp (foldl apply_event initial_globals (trace (main e))) s = Handler"
    using uniq mem by (intro sigdisp_foldl) auto
  show ?thesis
    unfolding full globals_after_def using h d by (simp add: deliver_def)
qed

lemma lifetime_env_ok: "lifetime env_ok = trace (main env_ok) @ [MainReturn]"
  by (simp add: lifetime_def main_env_ok trace_def)

section \<open>Runs of the pipeline\<close>




























section \<open>Properties of the bootstrap\<close>

text \<open>
  Claim C2. A run that reaches \<open>sync.Start()\<close> ends by returning 0 from \<open>main\<close>. When
  \<open>Config::Load\<close> answers a status that is not OK, the last action is the message
  \<open>Failed to load config, err: ...\<close> on standard output and the exit code is 1; when
  \<open>OpenForReadOnly\<close> answers a status that is not OK, the last action is the error log
  \<open>Failed to open: ...\<close> and the exit code is 1. In both failures no writer, parser or
  orchestrator is constructed and the orchestrator is not started.
\<close>

theorem main_exit_codes:
  "(SyncStart \<in> set (trace (main e)) \<longrightarrow> snd (main e) = Return 0 \<and> exit_code (main e) = 0) \<and>
   (ConfigLoad p \<in> set (trace (main e)) \<and> config_load e p = Inl msg \<longrightarrow>
      (\<exists>pre. main e = (pre @ [Stdout (''Failed to load config, err: '' @ msg @ nl)], Exit 1)) \<and>
      exit_code (main e) = 1 \<and>
      OpenForReadOnly \<notin> set (trace (main e)) \<and>
      (\<forall>x\<in>set (trace (main e)). \<not> pipeline_component x)) \<and>
   (StorageConstruct kc \<in> set (trace (main e)) \<and> open_for_read_only e kc = Some msg \<longrightarrow>
      (\<exists>pre. main e = (pre @ [OpenForReadOnly, LogError (''Failed to open: '' @ msg)], Exit 1)) \<and>
      exit_code (main e) = 1 \<and>
      (\<forall>x\<in>set (trace (main e)). \<not> pipeline_component x))"
  apply (cases e rule: parse_cases)
    apply (simp add: main_cases trace_simps)
   apply (simp add: main_cases trace_simps)
  apply (auto simp: main_cases trace_simps split: sum.splits option.splits if_splits)
  done

text \<open>
  The three cases of C2 on sample runs: a clean run, a configuration that does not load
  and an engine that does not open.
\<close>

theorem main_exit_codes_witness:
  "SyncStart \<in> set (trace (main env_ok)) \<and> exit_code (main env_ok) = 0 \<and>
   ConfigLoad ''/etc/k2r.conf'' \<in> set (trace (main env_load_fails)) \<and>
   config_load env_load_fails ''/etc/k2r.conf'' = Inl ''no such file'' \<and>
   exit_code (main env_load_fails) = 1 \<and>
   StorageConstruct (make_kvrocks_config sample_config) \<in> set (trace (main env_open_fails)) \<and>
   open_for_read_only env_open_fails (make_kvrocks_config sample_config) = Some ''IO error'' \<and>
   exit_code (main env_open_fails) = 1"
proof -
  have a: "SyncStart \<in> set (trace (main env_ok))"
    by (simp add: main_env_ok trace_def)
  have b: "ConfigLoad ''/etc/k2r.conf'' \<in> set (trace (main env_load_fails)) \<and>
           config_load env_load_fails ''/etc/k2r.conf'' = Inl ''no such file''"
    by (simp add: main_env_load_fails trace_def) (simp add: env_load_fails_def env_ok_def)
  have c: "StorageConstruct (make_kvrocks_config sample_config)
             \<in> set (trace (main env_open_fails)) \<and>
           open_for_read_only env_open_fails (make_kvrocks_config sample_config)
             = Some ''IO error''"
    by (simp add: main_env_open_fails trace_def) (simp add: env_open_fails_def env_ok_def)
  show ?thesis
    using a b c main_exit_codes[where e = env_ok]
      main_exit_codes[where e = env_load_fails and p = "''/etc/k2r.conf''"
        and msg = "''no such file''"]
      main_exit_codes[where e = env_open_fails and kc = "make_kvrocks_config sample_config"
        and msg = "''IO error''"]
    by blast
qed

text \<open>
  Claim C4, as stated, fails: when \<open>getopt\<close> reports an unrecognized option (\<open>?\<close>), the
  \<open>default\<close> label calls \<open>usage\<close>, which ends the process with \<open>exit(0)\<close>.
\<close>

theorem unrecognized_option_counterexample:
  "(CHR ''?'', []) \<in> set (getopt_returns env_bad_option) \<and>
   CHR ''?'' \<notin> {CHR ''c'', CHR ''p'', CHR ''h'', CHR ''v''} \<and>
   \<not> exit_code (main env_bad_option) \<noteq> 0"
  by (simp add: main_env_bad_option) (simp add: env_bad_option_def env_ok_def)

text \<open>
  Claim C4, amended. Whenever \<open>getopt\<close> returns a character other than \<open>c\<close>, \<open>p\<close>,
  \<open>h\<close>, \<open>v\<close> (as it does for an unrecognized option), the process exits with code 0,
  and it does so before the configuration is loaded.
\<close>

theorem unrecognized_option_exits_zero:
  assumes "(ch, arg) \<in> set (getopt_returns e)"
    and "ch \<notin> {CHR ''c'', CHR ''p'', CHR ''h'', CHR ''v''}"
  shows "snd (main e) = Exit 0 \<and> exit_code (main e) = 0 \<and>
         (\<forall>p. ConfigLoad p \<notin> set (trace (main e)))"
proof -
  obtain tr where "parseCommandLineOptions (argv0 e) (getopt_returns e) = (tr, Exit 0)"
    using getopt_loop_unrecognized[OF assms] unfolding parseCommandLineOptions_def by blast
  moreover from this parse_shape[OF this]
  have "tr = [] \<or> tr = trace (usage (argv0 e) :: unit proc)"
    by (auto simp: usage_def trace_def)
  ultimately show ?thesis
    by (auto simp: main_cases trace_simps)
qed

text \<open>
  The amended C4 on the run with the single unrecognized option.
\<close>

theorem unrecognized_option_exits_zero_witness:
  "(CHR ''?'', []) \<in> set (getopt_returns env_bad_option) \<and>
   CHR ''?'' \<notin> {CHR ''c'', CHR ''p'', CHR ''h'', CHR ''v''} \<and>
   snd (main env_bad_option) = Exit 0 \<and> exit_code (main env_bad_option) = 0 \<and>
   (\<forall>p. ConfigLoad p \<notin> set (trace (main env_bad_option)))"
proof -
  have h1: "(CHR ''?'', []) \<in> set (getopt_returns env_bad_option)"
    by (simp add: env_bad_option_def env_ok_def)
  have h2: "CHR ''?'' \<notin> {CHR ''c'', CHR ''p'', CHR ''h'', CHR ''v''}" by simp
  show ?thesis using h1 h2 unrecognized_option_exits_zero[OF h1 h2] by blast
qed

text \<open>
  Claim C5. In every run that constructs or starts a pipeline component, the engine is
  opened exactly once, by \<open>OpenForReadOnly\<close>; no pipeline component is constructed before
  that open; and the read-write open never happens.
\<close>

theorem storage_opened_once_read_only:
  assumes "\<exists>x\<in>set (trace (main e)). pipeline_component x"
  shows "count_list (trace (main e)) OpenForReadOnly = 1 \<and>
         StorageOpen \<notin> set (trace (main e)) \<and>
         (\<forall>x\<in>set (takeWhile (\<lambda>x. x \<noteq> OpenForReadOnly) (trace (main e))).
            \<not> pipeline_component x)"
proof (cases e rule: parse_cases)
  case exit0
  with assms show ?thesis by (simp add: main_cases trace_simps)
next
  case usage
  with assms show ?thesis by (simp add: main_cases trace_simps)
next
  case (ret opts)
  with assms show ?thesis
    by (auto simp: main_cases trace_simps split: sum.splits option.splits if_splits)
qed

text \<open>
  C5 on the clean sample run.
\<close>

theorem storage_opened_once_read_only_witness:
  "(\<exists>x\<in>set (trace (main env_ok)). pipeline_component x) \<and>
   count_list (trace (main env_ok)) OpenForReadOnly = 1 \<and>
   StorageOpen \<notin> set (trace (main env_ok))"
proof -
  have h: "\<exists>x\<in>set (trace (main env_ok)). pipeline_component x"
    by (simp add: main_env_ok trace_def)
  show ?thesis using h storage_opened_once_read_only[OF h] by blast
qed

text \<open>
  Claim C6. Once the configuration is loaded, \<open>fork\<close> is called if and only if its
  \<open>daemonize\<close> flag is set, and \<open>daemonize\<close> runs before the engine is opened. In
  \<open>daemonize\<close>: the parent (\<open>fork\<close> returns a positive pid) exits with code 0; a failing
  \<open>fork\<close> or \<open>setsid\<close> is logged as an error and followed by \<open>exit(1)\<close>; the child sets
  the umask, calls \<open>setsid\<close> and closes descriptors 0, 1 and 2. When \<open>daemonize\<close> exits,
  the process ends there with that code; otherwise the storage is constructed and opened
  next.
\<close>

theorem daemonize_iff_flag:
  assumes "ConfigLoad p \<in> set (trace (main e))" and "config_load e p = Inr config"
  shows "(Fork \<in> set (trace (main e)) \<longleftrightarrow> daemonize_flag config) \<and>
         (daemonize_flag config \<longrightarrow>
            (\<exists>post. trace (main e) =
                 prologue e @ ConfigLoad p # trace (initGoogleLog config)
                   @ trace (daemonize e) @ post \<and>
               (case snd (daemonize e) of
                  Exit n \<Rightarrow> post = [] \<and> snd (main e) = Exit n
                | Return _ \<Rightarrow> (\<exists>post'. post = StorageConstruct (make_kvrocks_config config)
                                              # OpenForReadOnly # post'))) \<and>
            OpenForReadOnly \<notin> set (prologue e @ ConfigLoad p # trace (initGoogleLog config)
                                       @ trace (daemonize e))) \<and>
         (0 < fork_ret e \<longrightarrow> daemonize e = ([Fork], Exit 0)) \<and>
         (fork_ret e < 0 \<longrightarrow>
            daemonize e =
              ([Fork, LogError (''Failed to fork the process, err: '' @ fork_err e)], Exit 1)) \<and>
         (fork_ret e = 0 \<and> setsid_ret e < 0 \<longrightarrow>
            daemonize e =
              ([Fork, Umask 0, Setsid,
                LogError (''Failed to setsid, err: %s'' @ setsid_err e)], Exit 1)) \<and>
         (fork_ret e = 0 \<and> 0 \<le> setsid_ret e \<longrightarrow>
            daemonize e =
              ([Fork, Umask 0, Setsid, CloseFd 0, CloseFd 1, CloseFd 2], Return ()))"
proof (cases e rule: parse_cases)
  case exit0
  with assms show ?thesis by (simp add: main_cases trace_simps)
next
  case usage
  with assms show ?thesis by (simp add: main_cases trace_simps)
next
  case (ret opts)
  with assms show ?thesis
    by (auto simp: main_cases trace_simps split: sum.splits option.splits if_splits)
qed

text \<open>
  C6 on the sample runs with and without the flag.
\<close>

theorem daemonize_iff_flag_witness:
  "ConfigLoad ''/etc/k2r.conf'' \<in> set (trace (main env_daemon)) \<and>
   config_load env_daemon ''/etc/k2r.conf'' = Inr (sample_config\<lparr>daemonize_flag := True\<rparr>) \<and>
   Fork \<in> set (trace (main env_daemon)) \<and>
   daemonize env_daemon = ([Fork, Umask 0, Setsid, CloseFd 0, CloseFd 1, CloseFd 2], Return ()) \<and>
   ConfigLoad ''/etc/k2r.conf'' \<in> set (trace (main env_ok)) \<and>
   config_load env_ok ''/etc/k2r.conf'' = Inr sample_config \<and>
   Fork \<notin> set (trace (main env_ok))"
proof -
  have d1: "ConfigLoad ''/etc/k2r.conf'' \<in> set (trace (main env_daemon))"
    by (simp add: main_env_daemon trace_def)
  have d2: "config_load env_daemon ''/etc/k2r.conf''
              = Inr (sample_config\<lparr>daemonize_flag := True\<rparr>)"
    by (simp add: env_daemon_def env_ok_def)
  have d3: "daemonize_flag (sample_config\<lparr>daemonize_flag := True\<rparr>)"
    and d4: "fork_ret env_daemon = 0" "0 \<le> setsid_ret env_daemon"
    by (simp_all add: env_daemon_def env_ok_def)
  have o1: "ConfigLoad ''/etc/k2r.conf'' \<in> set (trace (main env_ok))"
    by (simp add: main_env_ok trace_def)
  have o2: "config_load env_ok ''/etc/k2r.conf'' = Inr sample_config"
    by (simp add: env_ok_def)
  have o3: "\<not> daemonize_flag sample_config" by (simp add: sample_config_def)
  show ?thesis
    using d1 d2 d3 d4 o1 o2 o3 daemonize_iff_flag[OF d1 d2] daemonize_iff_flag[OF o1 o2]
    by blast
qed

text \<open>
  Claim C7. After a successful load of the configuration, the next actions set the
  minimum log level to the configuration's \<open>loglevel\<close> and the log directory to its
  \<open>dir\<close>; nothing before them forks or opens the engine, and the log level and directory
  are set nowhere else.
\<close>

theorem logging_configured_after_load:
  assumes "ConfigLoad p \<in> set (trace (main e))" and "config_load e p = Inr config"
  shows "\<exists>post. trace (main e) =
            prologue e @ [ConfigLoad p, SetMinLogLevel (loglevel config), SetMaxLogSize 100,
                          SetLogBufSecs 0, SetLogDir (dir config)] @ post \<and>
           Fork \<notin> set (prologue e) \<and> OpenForReadOnly \<notin> set (prologue e) \<and>
           (\<forall>x\<in>set (prologue e) \<union> set post.
              \<forall>n s. x \<noteq> SetMinLogLevel n \<and> x \<noteq> SetLogDir s \<and> x \<noteq> ConfigLoad s)"
proof (cases e rule: parse_cases)
  case exit0
  with assms show ?thesis by (simp add: main_cases trace_simps)
next
  case usage
  with assms show ?thesis by (simp add: main_cases trace_simps)
next
  case (ret opts)
  with assms show ?thesis
    by (auto simp: main_cases trace_simps split: sum.splits option.splits if_splits)
qed

text \<open>
  C7 on the clean sample run.
\<close>

theorem logging_configured_after_load_witness:
  "ConfigLoad ''/etc/k2r.conf'' \<in> set (trace (main env_ok)) \<and>
   config_load env_ok ''/etc/k2r.conf'' = Inr sample_config \<and>
   (\<exists>post. trace (main env_ok) =
      prologue env_ok @ [ConfigLoad ''/etc/k2r.conf'', SetMinLogLevel 1, SetMaxLogSize 100,
                         SetLogBufSecs 0, SetLogDir ''/var/log/k2r''] @ post)"
proof -
  have o1: "ConfigLoad ''/etc/k2r.conf'' \<in> set (trace (main env_ok))"
    by (simp add: main_env_ok trace_def)
  have o2: "config_load env_ok ''/etc/k2r.conf'' = Inr sample_config"
    by (simp add: env_ok_def)
  have o3: "loglevel sample_config = 1" "dir sample_config = ''/var/log/k2r''"
    by (simp_all add: sample_config_def)
  show ?thesis
    using o1 o2 logging_configured_after_load[OF o1 o2] unfolding o3 by blast
qed

section \<open>Properties of the signal handling\<close>

text \<open>
  A signal can arrive between any two actions of the process: the moment of delivery is a
  number \<open>k\<close> of actions already performed, and the handler sees the process state after
  the first \<open>k\<close> actions. In \<open>lifetime\<close> the last action of a run that reaches
  \<open>sync.Start()\<close> is the return from \<open>main\<close>.
\<close>

text \<open>
  Claim C3, as stated, fails: between the construction of the orchestrator and the
  assignment of the closure to \<open>hup_handler\<close> (the next statement of \<open>main\<close>), a SIGINT
  finds \<open>hup_handler\<close> empty; the handler neither queries \<open>IsStopped()\<close> nor calls
  \<open>Stop()\<close> nor removes the pid file.
\<close>

theorem signal_after_construct_counterexample:
  "SyncConstruct \<in> set (take 17 (lifetime env_ok)) \<and>
   MainReturn \<notin> set (take 17 (lifetime env_ok)) \<and>
   deliver SIGINT (globals_after (take 17 (lifetime env_ok))) False = Handled [] \<and>
   deliver SIGINT (globals_after (take 17 (lifetime env_ok))) False
     \<noteq> Handled [SyncIsStopped, LogInfo ''Bye Bye'', SyncStop, RemovePidFile ''/tmp/k2r.pid'']"
  by (simp add: lifetime_env_ok trace_main_env_ok globals_after_def initial_globals_def
      deliver_def signal_handler_def)

text \<open>
  Claim C3, amended. Whenever a SIGINT or SIGTERM is delivered after the closure has been
  assigned to \<open>hup_handler\<close> (at which point the orchestrator is constructed) and before
  \<open>main\<close> returns, the handler first queries \<open>IsStopped()\<close>; if the orchestrator is
  not stopped it logs, calls \<open>Stop()\<close> and then removes the pid file at
  \<open>opts.pid_file\<close>; if the orchestrator is already stopped it does neither.
\<close>

theorem signal_after_closure_stops_sync:
  assumes "s = SIGINT \<or> s = SIGTERM"
    and "AssignHupHandler p \<in> set (take k (lifetime e))"
    and "MainReturn \<notin> set (take k (lifetime e))"
  shows "deliver s (globals_after (take k (lifetime e))) stopped =
           Handled (SyncIsStopped #
                    (if stopped then [] else [LogInfo ''Bye Bye'', SyncStop, RemovePidFile p])) \<and>
         SyncConstruct \<in> set (take k (lifetime e))"
proof -
  let ?pre = "take k (trace (main e))"
  have pre: "take k (lifetime e) = ?pre" by (rule lifetime_prefix[OF assms(3)])
  from assms(2) have asg: "AssignHupHandler p \<in> set ?pre" unfolding pre .
  from assms(3) have alive: "MainReturn \<notin> set ?pre" unfolding pre .
  have uniqp: "\<forall>q. AssignHupHandler q \<in> set ?pre \<longrightarrow> q = p"
  proof (intro allI impI)
    fix q assume "AssignHupHandler q \<in> set ?pre"
    then have "AssignHupHandler q \<in> set (trace (main e))" by (rule in_set_takeD)
    moreover from asg have "AssignHupHandler p \<in> set (trace (main e))"
      by (rule in_set_takeD)
    ultimately show "q = p" using main_assign_events[of q e] main_assign_events[of p e] by auto
  qed
  have h: "hup_handler (globals_after ?pre) = Some p"
    unfolding globals_after_def by (rule hup_handler_foldl_some[OF asg uniqp])
  have r: "\<not> main_returned (globals_after ?pre)"
    unfolding globals_after_def using main_returned_foldl[OF alive, of initial_globals]
    by (simp add: initial_globals_def)
  have mem: "Signal s Handler \<in> set ?pre"
    using main_signals_installed[OF asg] assms(1) by auto
  have uniq: "\<forall>d'. Signal s d' \<in> set ?pre \<longrightarrow> d' = Handler"
    using main_signal_events[of s _ e] assms(1) by (auto dest: in_set_takeD)
  have "sigdisp (globals_after ?pre) s = Handler"
    unfolding globals_after_def using uniq mem by (intro sigdisp_foldl) auto
  with h r main_signals_installed[OF asg] show ?thesis
    unfolding pre
    by (simp add: deliver_def signal_handler_def hup_closure_def removePidFile_def emit_def
        trace_def)
qed

text \<open>
  The amended C3 on the clean sample run: delivered just before the call of
  \<open>sync.Start()\<close> to an orchestrator that is not stopped, and during that call to one
  that is stopped.
\<close>

theorem signal_after_closure_stops_sync_witness:
  "AssignHupHandler ''/tmp/k2r.pid'' \<in> set (take 18 (lifetime env_ok)) \<and>
   MainReturn \<notin> set (take 18 (lifetime env_ok)) \<and>
   deliver SIGTERM (globals_after (take 18 (lifetime env_ok))) False =
     Handled [SyncIsStopped, LogInfo ''Bye Bye'', SyncStop, RemovePidFile ''/tmp/k2r.pid''] \<and>
   deliver SIGTERM (globals_after (take 19 (lifetime env_ok))) True =
     Handled [SyncIsStopped]"
proof -
  have h: "AssignHupHandler ''/tmp/k2r.pid'' \<in> set (take 18 (lifetime env_ok))"
    and a: "MainReturn \<notin> set (take 18 (lifetime env_ok))"
    and h': "AssignHupHandler ''/tmp/k2r.pid'' \<in> set (take 19 (lifetime env_ok))"
    and a': "MainReturn \<notin> set (take 19 (lifetime env_ok))"
    by (simp_all add: lifetime_env_ok trace_main_env_ok)
  have s: "SIGTERM = SIGINT \<or> SIGTERM = SIGTERM" by simp
  show ?thesis
    using h a signal_after_closure_stops_sync[OF s h a, of False]
      signal_after_closure_stops_sync[OF s h' a', of True]
    by simp
qed

text \<open>
  Claim C8. The fourth action of every run sets SIGPIPE to be ignored, after nothing but
  the initialisation of logging, flags and libevent threading; from then on a SIGPIPE
  delivered at any moment is ignored and does not end the process.
\<close>

theorem sigpipe_ignored_first:
  "take 4 (trace (main e)) =
     [InitGoogleLogging ''kvrocks2redis'', SetUsageMessage ''kvrocks2redis'',
      EvthreadUsePthreads, Signal SIGPIPE SIG_IGN] \<and>
   deliver SIGPIPE (globals_after (take (4 + k) (trace (main e)))) stopped = Ignored"
proof -
  let ?pre = "take (4 + k) (trace (main e))"
  have "take 4 ?pre = take 4 (trace (main e))" by (simp add: min_def)
  then have "Signal SIGPIPE SIG_IGN \<in> set (take 4 ?pre)" by (simp add: main_take4)
  then have mem: "Signal SIGPIPE SIG_IGN \<in> set ?pre" by (rule in_set_takeD)
  have uniq: "\<forall>d'. Signal SIGPIPE d' \<in> set ?pre \<longrightarrow> d' = SIG_IGN"
    using main_signal_events[of SIGPIPE _ e] by (auto dest: in_set_takeD)
  have "sigdisp (globals_after ?pre) SIGPIPE = SIG_IGN"
    unfolding globals_after_def using uniq mem by (intro sigdisp_foldl) auto
  then show ?thesis by (simp add: main_take4 deliver_def)
qed

text \<open>
  C8 on the clean sample run, with SIGPIPE delivered after the writer is constructed.
\<close>

theorem sigpipe_ignored_first_witness:
  "deliver SIGPIPE (globals_after (take 15 (trace (main env_ok)))) False = Ignored"
  using sigpipe_ignored_first[of env_ok 11 False] by simp

text \<open>
  Claim C9. \<open>createPidFile\<close> always begins by opening the pid file exclusively; no run
  of \<open>main\<close> and no run of the signal handler performs that open, the write or the close.
  The closure that \<open>main\<close> assigns reads the pid file path of the parsed options, and
  the handler, run on an orchestrator that is not stopped, removes the file at that path.
\<close>

theorem pid_file_never_created:
  "PidFileOpenExcl path \<in> set (trace (createPidFile fd err pid_str path)) \<and>
   (\<forall>x\<in>set (trace (main e)) \<union> set (signal_handler g stopped).
      \<forall>q. x \<noteq> PidFileOpenExcl q \<and> x \<noteq> PidFileWrite q \<and> x \<noteq> PidFileClose) \<and>
   (AssignHupHandler p \<in> set (trace (main e)) \<longrightarrow>
      (\<exists>opts. parseCommandLineOptions (argv0 e) (getopt_returns e) = ([], Return opts) \<and>
              p = pid_file opts) \<and>
      signal_handler (globals_after (trace (main e))) False =
        [SyncIsStopped, LogInfo ''Bye Bye'', SyncStop, RemovePidFile p])"
proof -
  have a: "PidFileOpenExcl path \<in> set (trace (createPidFile fd err pid_str path))"
    by (simp add: createPidFile_def trace_def)
  have b: "\<forall>x\<in>set (trace (main e)). \<forall>q. x \<noteq> PidFileOpenExcl q \<and> x \<noteq> PidFileWrite q \<and> x \<noteq> PidFileClose"
    apply (cases e rule: parse_cases)
      apply (auto simp: main_cases trace_simps split: sum.splits option.splits if_splits)
    done
  have c: "\<forall>x\<in>set (signal_handler g stopped). \<forall>q. x \<noteq> PidFileOpenExcl q \<and> x \<noteq> PidFileWrite q \<and> x \<noteq> PidFileClose"
    by (auto simp: signal_handler_def hup_closure_def removePidFile_def emit_def trace_def
        split: option.splits)
  have d: "signal_handler (globals_after (trace (main e))) False =
        [SyncIsStopped, LogInfo ''Bye Bye'', SyncStop, RemovePidFile p]"
    if asm: "AssignHupHandler p \<in> set (trace (main e))"
  proof -
    have "\<forall>q. AssignHupHandler q \<in> set (trace (main e)) \<longrightarrow> q = p"
      using main_assign_events[of _ e] main_assign_events[OF asm] by auto
    from hup_handler_foldl_some[OF asm this]
    have "hup_handler (globals_after (trace (main e))) = Some p"
      unfolding globals_after_def .
    then show ?thesis
      by (simp add: signal_handler_def hup_closure_def removePidFile_def emit_def trace_def)
  qed
  from a b c d main_assign_events[of p e] show ?thesis by blast
qed

text \<open>
  C9 on the clean sample run, where the option \<open>-p\<close> gave the path.
\<close>

theorem pid_file_never_created_witness:
  "AssignHupHandler ''/tmp/k2r.pid'' \<in> set (trace (main env_ok)) \<and>
   PidFileOpenExcl ''/tmp/k2r.pid'' \<notin> set (trace (main env_ok)) \<and>
   signal_handler (globals_after (trace (main env_ok))) False =
     [SyncIsStopped, LogInfo ''Bye Bye'', SyncStop, RemovePidFile ''/tmp/k2r.pid'']"
proof -
  have h: "AssignHupHandler ''/tmp/k2r.pid'' \<in> set (trace (main env_ok))"
    by (simp add: trace_main_env_ok)
  show ?thesis
    using h pid_file_never_created[of "''/tmp/k2r.pid''" 0 "[]" "[]" env_ok initial_globals
        False "''/tmp/k2r.pid''"]
    by blast
qed

text \<open>
  Claim C10. When SIGINT or SIGTERM is delivered after both handlers are installed and
  before the closure is assigned, \<open>hup_handler\<close> is empty and \<open>signal_handler\<close> does
  nothing.
\<close>

theorem signal_before_closure_no_action:
  assumes "s = SIGINT \<or> s = SIGTERM"
    and "Signal SIGINT Handler \<in> set (take k (trace (main e)))"
    and "Signal SIGTERM Handler \<in> set (take k (trace (main e)))"
    and "\<forall>p. AssignHupHandler p \<notin> set (take k (trace (main e)))"
  shows "hup_handler (globals_after (take k (trace (main e)))) = None \<and>
         signal_handler (globals_after (take k (trace (main e)))) stopped = [] \<and>
         deliver s (globals_after (take k (trace (main e)))) stopped = Handled []"
proof -
  let ?pre = "take k (trace (main e))"
  have h: "hup_handler (globals_after ?pre) = None"
    unfolding globals_after_def using hup_handler_foldl_none[OF assms(4)]
    by (simp add: initial_globals_def)
  have mem: "Signal s Handler \<in> set ?pre" using assms(1-3) by auto
  have uniq: "\<forall>d'. Signal s d' \<in> set ?pre \<longrightarrow> d' = Handler"
    using main_signal_events[of s _ e] assms(1) by (auto dest: in_set_takeD)
  have "sigdisp (globals_after ?pre) s = Handler"
    unfolding globals_after_def using uniq mem by (intro sigdisp_foldl) auto
  with h show ?thesis by (simp add: deliver_def signal_handler_def)
qed

text \<open>
  C10 on the clean sample run, with SIGINT delivered while the logging is being set up.
\<close>

theorem signal_before_closure_no_action_witness:
  "Signal SIGINT Handler \<in> set (take 10 (trace (main env_ok))) \<and>
   Signal SIGTERM Handler \<in> set (take 10 (trace (main env_ok))) \<and>
   (\<forall>p. AssignHupHandler p \<notin> set (take 10 (trace (main env_ok)))) \<and>
   deliver SIGINT (globals_after (take 10 (trace (main env_ok)))) False = Handled []"
proof -
  have a: "Signal SIGINT Handler \<in> set (take 10 (trace (main env_ok)))"
    and b: "Signal SIGTERM Handler \<in> set (take 10 (trace (main env_ok)))"
    and c: "\<forall>p. AssignHupHandler p \<notin> set (take 10 (trace (main env_ok)))"
    by (simp_all add: trace_main_env_ok)
  have s: "SIGINT = SIGINT \<or> SIGINT = SIGTERM" by simp
  show ?thesis
    using a b c signal_before_closure_no_action[OF s a b c, of False] by blast
qed

section \<open>Properties of the pipeline\<close>




end
